theory Spec2Isabelle
  imports Main "HOL-Library.AList" "HOL-Library.Product_Lexorder"
begin

section \<open>Shift reconciliation and pairwise overlap (nhl/json\_shifts.py)\<close>

text \<open>
  The two functions of \<^verbatim>\<open>json_shifts.py\<close> that carry the algorithmic content are
  embedded here: \<^verbatim>\<open>get_game_shifts\<close> (everything after the HTTP request, which is
  taken as the argument) and \<^verbatim>\<open>get_overlapping_shifts\<close>.

  Conventions of the embedding:
  \<^item> a pandas data frame is the list of its rows, each paired with its index label;
    \<^verbatim>\<open>json_normalize\<close> labels the rows with their positions;
  \<^item> Python integers are \<open>int\<close>; the integer columns are taken to hold integers
    (pandas may hold them as floats of the same value);
  \<^item> an exception is a value \<open>Inl e\<close> of the result type \<open>error + 'a\<close>;
  \<^item> a Python \<^verbatim>\<open>dict\<close> is an association list updated with \<open>AList.update\<close>, which
    overwrites the value of a key already present and appends a new key at the end, as
    Python does;
  \<^item> strings are lists of 8-bit characters, so only ASCII text is covered.
\<close>

subsection \<open>Data model\<close>

text \<open>
  One row of the shift table. The same eight columns occur with three typings: as read
  from the provider (every cell may be null), after \<^verbatim>\<open>dropna\<close> (times are \<^verbatim>\<open>mm:ss\<close>
  strings) and after conversion (times are integer seconds).
\<close>

record ('i, 't, 'n) shift_row =
  gameId :: 'i
  playerId :: 'i
  startTime :: 't
  period :: 'i
  endTime :: 't
  duration :: 't
  teamId :: 'i
  teamName :: 'n

type_synonym raw_shift = "(int option, string option, string option) shift_row"
type_synonym str_shift = "(int, string, string) shift_row"
type_synonym shift = "(int, int, string) shift_row"

type_synonym 'a frame = "(nat \<times> 'a) list"

text \<open>A row of the long table that \<^verbatim>\<open>get_overlapping_shifts\<close> returns: the columns
  \<^verbatim>\<open>gameId\<close>, \<^verbatim>\<open>playerId\<close>, \<^verbatim>\<open>playerId2\<close>, \<^verbatim>\<open>seconds\<close>. The first two are
  prefixed because the field names are taken by the shift row.\<close>

record overlap_record =
  o_gameId :: int
  o_playerId :: int
  playerId2 :: int
  seconds :: int

datatype error = ValueError | IndexError

definition bind_err :: "error + 'a \<Rightarrow> ('a \<Rightarrow> error + 'b) \<Rightarrow> error + 'b" where
  "bind_err m f = (case m of Inl e \<Rightarrow> Inl e | Inr x \<Rightarrow> f x)"

text \<open>Apply a fallible function to every element in order; the first failure is the
  result.\<close>

fun traverse :: "('a \<Rightarrow> error + 'b) \<Rightarrow> 'a list \<Rightarrow> error + 'b list" where
  "traverse f [] = Inr []"
| "traverse f (x # xs) =
     bind_err (f x) (\<lambda>y. bind_err (traverse f xs) (\<lambda>ys. Inr (y # ys)))"

subsection \<open>Python ranges\<close>

text \<open>\<^verbatim>\<open>len(range(lo, hi))\<close>, \<^verbatim>\<open>range(lo, hi)[0]\<close> and \<^verbatim>\<open>range(lo, hi)[-1]\<close>; indexing an
  empty range raises \<^verbatim>\<open>IndexError\<close>.\<close>

definition range_len :: "int \<Rightarrow> int \<Rightarrow> int" where
  "range_len lo hi = max 0 (hi - lo)"

definition range_first :: "int \<Rightarrow> int \<Rightarrow> error + int" where
  "range_first lo hi = (if range_len lo hi = 0 then Inl IndexError else Inr lo)"

definition range_last :: "int \<Rightarrow> int \<Rightarrow> error + int" where
  "range_last lo hi = (if range_len lo hi = 0 then Inl IndexError else Inr (hi - 1))"

subsection \<open>The overlap engine: \<^verbatim>\<open>get_overlapping_shifts\<close>\<close>

text \<open>Lines 188-193, for one candidate row \<open>other\<close> of \<^verbatim>\<open>other_players\<close>.\<close>

definition correct_time :: "shift \<Rightarrow> shift \<Rightarrow> bool" where
  "correct_time shift other \<longleftrightarrow>
     (startTime other \<ge> startTime shift \<and> startTime other < endTime shift) \<or>
     (startTime other < startTime shift \<and> endTime other > startTime shift)"

text \<open>Lines 203-220: the value stored for one overlapping shift. Python evaluates
  \<^verbatim>\<open>shift_range[0]\<close> first, so an empty range of the current shift raises.\<close>

definition overlap_seconds :: "shift \<Rightarrow> shift \<Rightarrow> error + int" where
  "overlap_seconds shift overlapping_shift =
     (if range_len (startTime overlapping_shift) (endTime overlapping_shift) = 0 then Inr 0
      else
        bind_err (range_first (startTime shift) (endTime shift)) (\<lambda>s0.
        bind_err (range_first (startTime overlapping_shift) (endTime overlapping_shift)) (\<lambda>o0.
        bind_err (range_last (startTime shift) (endTime shift)) (\<lambda>s1.
        bind_err (range_last (startTime overlapping_shift) (endTime overlapping_shift)) (\<lambda>o1.
        Inr (range_len (max s0 o0) (min s1 o1 + 1)))))))"

text \<open>Lines 202-220: the loop over the overlapping shifts fills \<^verbatim>\<open>overlap_dict\<close>, keyed
  by the other player's id.\<close>

fun overlap_loop :: "shift \<Rightarrow> shift frame \<Rightarrow> (int \<times> int) list \<Rightarrow> error + (int \<times> int) list" where
  "overlap_loop shift [] overlap_dict = Inr overlap_dict"
| "overlap_loop shift (overlapping_shift # rest) overlap_dict =
     bind_err (overlap_seconds shift (snd overlapping_shift)) (\<lambda>secs.
       overlap_loop shift rest
         (AList.update (playerId (snd overlapping_shift)) secs overlap_dict))"

text \<open>Lines 179-196: the candidate rows for one shift of the current group.
  \<^verbatim>\<open>drop(shifts.index)\<close> removes the rows whose label is a label of the group.\<close>

definition shift_overlap ::
  "shift frame \<Rightarrow> shift frame \<Rightarrow> int list \<Rightarrow> int \<Rightarrow> shift \<Rightarrow> shift frame" where
  "shift_overlap all_game_shifts shifts checked_players team shift =
     (let other_players = filter (\<lambda>r. fst r \<notin> fst ` set shifts) all_game_shifts;
          other_players = filter (\<lambda>r. playerId (snd r) \<notin> set checked_players) other_players
      in filter (\<lambda>r. teamId (snd r) = team \<and> correct_time shift (snd r)) other_players)"

text \<open>Lines 177-239: the loop over the shifts of one group; \<^verbatim>\<open>overlap_dict_all\<close> is keyed
  by the label of the shift and holds the shift with its \<^verbatim>\<open>overlap_dict\<close>.\<close>

type_synonym overlap_table = "(nat \<times> ((int \<times> int) list \<times> shift)) list"

fun shifts_loop ::
  "shift frame \<Rightarrow> shift frame \<Rightarrow> int list \<Rightarrow> int \<Rightarrow> shift frame \<Rightarrow> overlap_table
     \<Rightarrow> error + overlap_table" where
  "shifts_loop all_game_shifts shifts checked_players team [] overlap_dict_all =
     Inr overlap_dict_all"
| "shifts_loop all_game_shifts shifts checked_players team (row # rest) overlap_dict_all =
     bind_err
       (overlap_loop (snd row)
          (shift_overlap all_game_shifts shifts checked_players team (snd row)) [])
       (\<lambda>overlap_dict.
          shifts_loop all_game_shifts shifts checked_players team rest
            (AList.update (fst row) (overlap_dict, snd row) overlap_dict_all))"

text \<open>\<^verbatim>\<open>groupby(["playerId", "teamId"])\<close>: the keys in ascending order, and the rows of a
  key in table order.\<close>

definition group_keys :: "shift frame \<Rightarrow> (int \<times> int) list" where
  "group_keys all_game_shifts =
     sort (remdups (map (\<lambda>r. (playerId (snd r), teamId (snd r))) all_game_shifts))"

definition group_rows :: "shift frame \<Rightarrow> int \<times> int \<Rightarrow> shift frame" where
  "group_rows all_game_shifts player_team =
     filter (\<lambda>r. (playerId (snd r), teamId (snd r)) = player_team) all_game_shifts"

text \<open>Lines 175-242: the loop over the groups; a player is appended to
  \<^verbatim>\<open>checked_players\<close> after its group.\<close>

fun groups_loop ::
  "shift frame \<Rightarrow> (int \<times> int) list \<Rightarrow> int list \<Rightarrow> overlap_table \<Rightarrow> error + overlap_table" where
  "groups_loop all_game_shifts [] checked_players overlap_dict_all = Inr overlap_dict_all"
| "groups_loop all_game_shifts (player_team # rest) checked_players overlap_dict_all =
     (let shifts = group_rows all_game_shifts player_team in
      bind_err
        (shifts_loop all_game_shifts shifts checked_players (snd player_team) shifts
           overlap_dict_all)
        (\<lambda>overlap_dict_all.
           groups_loop all_game_shifts rest (checked_players @ [fst player_team])
             overlap_dict_all))"

text \<open>Lines 245-256. The columns of the wide table are the other players' ids in order of
  first appearance; \<^verbatim>\<open>melt\<close> lists the cells column by column and \<^verbatim>\<open>dropna\<close> removes the
  empty ones.\<close>

definition wide_columns :: "overlap_table \<Rightarrow> int list" where
  "wide_columns overlap_dict_all =
     rev (remdups (rev (concat (map (\<lambda>e. map fst (fst (snd e))) overlap_dict_all))))"

definition melt_cell :: "int \<Rightarrow> nat \<times> ((int \<times> int) list \<times> shift) \<Rightarrow> overlap_record list" where
  "melt_cell col e =
     (case map_of (fst (snd e)) col of
        None \<Rightarrow> []
      | Some secs \<Rightarrow>
          [\<lparr>o_gameId = gameId (snd (snd e)), o_playerId = playerId (snd (snd e)),
            playerId2 = col, seconds = secs\<rparr>])"

definition melt :: "overlap_table \<Rightarrow> overlap_record list" where
  "melt overlap_dict_all =
     concat (map (\<lambda>col. concat (map (melt_cell col) overlap_dict_all))
       (wide_columns overlap_dict_all))"

text \<open>The whole function. \<^verbatim>\<open>pd.concat\<close> of an empty dictionary raises \<^verbatim>\<open>ValueError\<close>.\<close>

definition get_overlapping_shifts :: "shift frame \<Rightarrow> int \<Rightarrow> error + overlap_record list" where
  "get_overlapping_shifts game_shifts_df game =
     (let all_game_shifts = filter (\<lambda>r. gameId (snd r) = game) game_shifts_df in
      bind_err (groups_loop all_game_shifts (group_keys all_game_shifts) [] [])
        (\<lambda>overlap_dict_all.
           if overlap_dict_all = [] then Inl ValueError else Inr (melt overlap_dict_all)))"

subsection \<open>Python strings and integers\<close>

text \<open>\<^verbatim>\<open>int(s)\<close> on a string, base ten: surrounding whitespace is stripped, one sign is
  allowed, and the digits may be grouped by single underscores. Anything else raises
  \<^verbatim>\<open>ValueError\<close>.\<close>

definition is_digit :: "char \<Rightarrow> bool" where
  "is_digit c \<longleftrightarrow> c \<in> set ''0123456789''"

definition digit_val :: "char \<Rightarrow> int" where
  "digit_val c = int (of_char c) - 48"

definition is_space :: "char \<Rightarrow> bool" where
  "is_space c \<longleftrightarrow>
     c \<in> {CHR '' '', CHR 0x09, CHR 0x0A, CHR 0x0B, CHR 0x0C, CHR 0x0D,
          CHR 0x1C, CHR 0x1D, CHR 0x1E, CHR 0x1F}"

definition strip :: "string \<Rightarrow> string" where
  "strip s = rev (dropWhile is_space (rev (dropWhile is_space s)))"

fun digits_ok :: "string \<Rightarrow> bool" where
  "digits_ok [] = False"
| "digits_ok [c] = is_digit c"
| "digits_ok (c # d # cs) =
     (is_digit c \<and> (if d = CHR ''_'' then digits_ok cs else digits_ok (d # cs)))"

definition digits_value :: "string \<Rightarrow> int" where
  "digits_value ds = foldl (\<lambda>acc c. 10 * acc + digit_val c) 0 (filter (\<lambda>c. c \<noteq> CHR ''_'') ds)"

definition py_int :: "string \<Rightarrow> error + int" where
  "py_int s =
     (case strip s of
        [] \<Rightarrow> Inl ValueError
      | c # cs \<Rightarrow>
          if c = CHR ''-'' then (if digits_ok cs then Inr (- digits_value cs) else Inl ValueError)
          else if c = CHR ''+'' then (if digits_ok cs then Inr (digits_value cs) else Inl ValueError)
          else if digits_ok (c # cs) then Inr (digits_value (c # cs))
          else Inl ValueError)"

text \<open>\<^verbatim>\<open>s.split(sep)\<close> for a one-character separator.\<close>

fun split_sep :: "char \<Rightarrow> string \<Rightarrow> string list" where
  "split_sep sep [] = [[]]"
| "split_sep sep (c # cs) =
     (if c = sep then [] # split_sep sep cs
      else (case split_sep sep cs of
              [] \<Rightarrow> [[c]]
            | p # ps \<Rightarrow> (c # p) # ps))"

text \<open>The decimal text of an integer, as an f-string writes it.\<close>

fun str_of_nat :: "nat \<Rightarrow> string" where
  "str_of_nat n =
     (if n < 10 then [char_of (48 + n)]
      else str_of_nat (n div 10) @ [char_of (48 + n mod 10)])"

definition str_of_int :: "int \<Rightarrow> string" where
  "str_of_int i = (if i < 0 then CHR ''-'' # str_of_nat (nat (- i)) else str_of_nat (nat i))"

subsection \<open>The reconciler: \<^verbatim>\<open>get_game_shifts\<close>\<close>

text \<open>
  The column operations of the function act on each row by itself, so every step is given
  for one row and the table function applies it to all rows before the next step, as the
  source does. The masks \<^verbatim>\<open>missing_start_time\<close> and \<^verbatim>\<open>missing_end_time\<close> are read
  from the row where they are used: no step in between changes the column they test. An
  assignment under a mask leaves the rows outside the mask as they are. Every exception of
  this function is a \<^verbatim>\<open>ValueError\<close>, so the row that raises first is not observable.
\<close>

definition shift_columns :: "string list" where
  "shift_columns =
     [''gameId'', ''playerId'', ''startTime'', ''period'', ''endTime'', ''duration'',
      ''teamId'', ''teamName'']"

text \<open>Line 32: the rows are labelled with their positions.\<close>

definition json_normalize :: "'a list \<Rightarrow> 'a frame" where
  "json_normalize data = zip [0..<length data] data"

text \<open>Line 44: a row with a null in any of the eight columns is removed.\<close>

definition notna :: "raw_shift \<Rightarrow> str_shift option" where
  "notna r =
     (case (gameId r, playerId r, startTime r, period r) of
        (Some g, Some p, Some s, Some pe) \<Rightarrow>
          (case (endTime r, duration r, teamId r, teamName r) of
             (Some e, Some d, Some t, Some n) \<Rightarrow>
               Some \<lparr>gameId = g, playerId = p, startTime = s, period = pe, endTime = e,
                     duration = d, teamId = t, teamName = n\<rparr>
           | _ \<Rightarrow> None)
      | _ \<Rightarrow> None)"

definition dropna :: "raw_shift frame \<Rightarrow> str_shift frame" where
  "dropna df = List.map_filter (\<lambda>lr. map_option (Pair (fst lr)) (notna (snd lr))) df"

text \<open>Line 59, for one row: \<^verbatim>\<open>int(x[0:2]) >= 18\<close>. It is applied to every row, also to
  one whose \<^verbatim>\<open>startTime\<close> is empty.\<close>

definition final_two_minutes :: "str_shift \<Rightarrow> error + bool" where
  "final_two_minutes r = bind_err (py_int (take 2 (startTime r))) (\<lambda>m. Inr (m \<ge> 18))"

text \<open>Lines 52-63.\<close>

definition final_shift_end :: "str_shift \<Rightarrow> error + str_shift" where
  "final_shift_end r =
     bind_err (final_two_minutes r) (\<lambda>ftm.
       let missing_end_time = (endTime r = '''');
           final_period = (period r = 3)
       in Inr (if missing_end_time \<and> final_period \<and> ftm then r\<lparr>endTime := ''20:00''\<rparr> else r))"

text \<open>Lines 69-71.\<close>

definition backfill_start :: "str_shift \<Rightarrow> error + str_shift" where
  "backfill_start r =
     (if startTime r = '''' then
        bind_err (py_int (take 2 (endTime r))) (\<lambda>em.
        bind_err (py_int (take 2 (duration r))) (\<lambda>dm.
        bind_err (py_int (drop 3 (endTime r))) (\<lambda>es.
        bind_err (py_int (drop 3 (duration r))) (\<lambda>ds.
        Inr (r\<lparr>startTime := str_of_int (em - dm) @ '':'' @ str_of_int (es - ds)\<rparr>)))))
      else Inr r)"

text \<open>Lines 66 and 74-76.\<close>

definition backfill_end :: "str_shift \<Rightarrow> error + str_shift" where
  "backfill_end r =
     (if endTime r = '''' then
        bind_err (py_int (take 2 (startTime r))) (\<lambda>sm.
        bind_err (py_int (take 2 (duration r))) (\<lambda>dm.
        bind_err (py_int (drop 3 (startTime r))) (\<lambda>ss.
        bind_err (py_int (drop 3 (duration r))) (\<lambda>ds.
        Inr (r\<lparr>endTime := str_of_int (sm + dm) @ '':'' @ str_of_int (ss + ds)\<rparr>)))))
      else Inr r)"

text \<open>Lines 79-84, for one cell: the text is split at the colons, the unpacking into
  \<^verbatim>\<open>minute, second\<close> needs exactly two parts.\<close>

definition to_seconds :: "string \<Rightarrow> error + int" where
  "to_seconds s =
     (case split_sep CHR '':'' s of
        [minute, second] \<Rightarrow>
          bind_err (py_int minute) (\<lambda>m. bind_err (py_int second) (\<lambda>s. Inr (m * 60 + s)))
      | _ \<Rightarrow> Inl ValueError)"

definition convert_times :: "str_shift \<Rightarrow> error + shift" where
  "convert_times r =
     bind_err (to_seconds (startTime r)) (\<lambda>s.
     bind_err (to_seconds (endTime r)) (\<lambda>e.
     bind_err (to_seconds (duration r)) (\<lambda>d.
     Inr \<lparr>gameId = gameId r, playerId = playerId r, startTime = s, period = period r,
          endTime = e, duration = d, teamId = teamId r, teamName = teamName r\<rparr>)))"

text \<open>Lines 87-88.\<close>

definition elapsed_time :: "shift \<Rightarrow> shift" where
  "elapsed_time r =
     r\<lparr>startTime := 1200 * (period r - 1) + startTime r,
       endTime := 1200 * (period r - 1) + endTime r\<rparr>"

text \<open>Lines 91-95.\<close>

definition period_shift :: "shift \<Rightarrow> shift" where
  "period_shift r = (if endTime r < startTime r then r\<lparr>endTime := endTime r + 1200\<rparr> else r)"

text \<open>Line 98.\<close>

definition recompute_duration :: "shift \<Rightarrow> shift" where
  "recompute_duration r = r\<lparr>duration := endTime r - startTime r\<rparr>"

definition on_rows :: "('a \<Rightarrow> error + 'b) \<Rightarrow> 'a frame \<Rightarrow> error + 'b frame" where
  "on_rows f df = traverse (\<lambda>lr. bind_err (f (snd lr)) (\<lambda>r. Inr (fst lr, r))) df"

text \<open>The function, from the parsed response on. The result is the list of column names
  with the labelled rows.\<close>

definition get_game_shifts :: "raw_shift list \<Rightarrow> error + string list \<times> shift frame" where
  "get_game_shifts game_shifts =
     (let game_shifts_df = json_normalize game_shifts in
      if length game_shifts_df = 0 then Inr (shift_columns, [])
      else
        let game_shifts_df = dropna game_shifts_df in
        if length game_shifts_df = 0 then Inr (shift_columns, [])
        else
          bind_err (on_rows final_shift_end game_shifts_df) (\<lambda>df.
          bind_err (on_rows backfill_start df) (\<lambda>df.
          bind_err (on_rows backfill_end df) (\<lambda>df.
          bind_err (on_rows convert_times df) (\<lambda>df.
          Inr (shift_columns,
               map (\<lambda>lr. (fst lr, recompute_duration (period_shift (elapsed_time (snd lr)))))
                 df))))))"

text \<open>The same steps for one row: the steps before the conversion, and all of them.\<close>

definition backfill :: "str_shift \<Rightarrow> error + str_shift" where
  "backfill r =
     bind_err (final_shift_end r) (\<lambda>r. bind_err (backfill_start r) backfill_end)"

definition reconcile :: "str_shift \<Rightarrow> error + shift" where
  "reconcile r =
     bind_err (backfill r) (\<lambda>r.
     bind_err (convert_times r) (\<lambda>r.
     Inr (recompute_duration (period_shift (elapsed_time r)))))"

subsection \<open>Example rows\<close>

text \<open>A reconciled shift of game 2013020001 on team 7, and a raw row of the same game as
  the provider sends it.\<close>

definition mk_shift :: "int \<Rightarrow> int \<Rightarrow> int \<Rightarrow> shift" where
  "mk_shift player s e =
     \<lparr>gameId = 2013020001, playerId = player, startTime = s, period = 1, endTime = e,
      duration = e - s, teamId = 7, teamName = ''T''\<rparr>"

definition mk_raw :: "string \<Rightarrow> string \<Rightarrow> string \<Rightarrow> int \<Rightarrow> raw_shift" where
  "mk_raw s e d p =
     \<lparr>gameId = Some 2013020001, playerId = Some 10, startTime = Some s, period = Some p,
      endTime = Some e, duration = Some d, teamId = Some 7, teamName = Some ''T''\<rparr>"

text \<open>Two teammates with one shift each, \<open>[0,100)\<close> and \<open>[50,150)\<close>; the same table with
  a shift of another game added.\<close>

definition two_players :: "shift frame" where
  "two_players = [(0, mk_shift 1 0 100), (1, mk_shift 2 50 150)]"

definition two_games :: "shift frame" where
  "two_games = two_players @ [(2, (mk_shift 3 0 100)\<lparr>gameId := 2013020002\<rparr>)]"

text \<open>A shift of no duration at second 50, of the player processed first, and a teammate
  on the ice from 0 to 100.\<close>

definition zero_duration_first :: "shift frame" where
  "zero_duration_first = [(0, mk_shift 1 50 50), (1, mk_shift 2 0 100)]"

text \<open>One shift \<open>[0,100)\<close> of player 1 and two shifts \<open>[0,10)\<close> and \<open>[20,50)\<close> of
  teammate 2, both inside it.\<close>

definition one_against_two :: "shift frame" where
  "one_against_two = [(0, mk_shift 1 0 100), (1, mk_shift 2 0 10), (2, mk_shift 2 20 50)]"

text \<open>A goaltender on the ice for the whole period and a skater with three shifts.\<close>

definition goalie_and_skater :: "shift frame" where
  "goalie_and_skater =
     [(0, mk_shift 1 0 1200), (1, mk_shift 2 0 40), (2, mk_shift 2 100 160),
      (3, mk_shift 2 300 330)]"

text \<open>Two teammates on the ice together in three separate pairs of shifts.\<close>

definition three_pairs :: "shift frame" where
  "three_pairs =
     [(0, mk_shift 1 0 40), (1, mk_shift 1 100 160), (2, mk_shift 1 300 330),
      (3, mk_shift 2 10 50), (4, mk_shift 2 120 150), (5, mk_shift 2 290 400)]"

subsection \<open>Invariant of the overlap table\<close>

text \<open>Every entry of \<^verbatim>\<open>overlap_dict_all\<close> holds a row of the game, and the keys of its
  \<^verbatim>\<open>overlap_dict\<close> are ids above the id of the player of that row.\<close>

definition ordered_table :: "shift frame \<Rightarrow> overlap_table \<Rightarrow> bool" where
  "ordered_table all_game_shifts t \<longleftrightarrow>
     (\<forall>e \<in> set t. snd (snd e) \<in> snd ` set all_game_shifts \<and>
        (\<forall>kv \<in> set (fst (snd e)). playerId (snd (snd e)) < fst kv))"

subsection \<open>Rows of a table and their images\<close>

text \<open>A row and its image under a fallible row function keep the same label.\<close>

definition row_rel :: "('a \<Rightarrow> error + 'b) \<Rightarrow> nat \<times> 'a \<Rightarrow> nat \<times> 'b \<Rightarrow> bool" where
  "row_rel f lr lr' \<longleftrightarrow> fst lr' = fst lr \<and> f (snd lr) = Inr (snd lr')"

text \<open>Raw tables: a row with no start time; a goal event (no duration); the scenario of
  the final two minutes of regulation.\<close>

definition missing_start :: "raw_shift list" where
  "missing_start = [mk_raw '''' ''01:00'' ''00:30'' 1]"

definition goal_event :: "raw_shift list" where
  "goal_event = [(mk_raw ''05:00'' ''05:00'' ''00:00'' 1)\<lparr>duration := None\<rparr>]"

definition final_minutes :: "raw_shift list" where
  "final_minutes = [mk_raw ''18:30'' '''' ''01:00'' 3]"

text \<open>The row of \<open>final_minutes\<close> after \<^verbatim>\<open>dropna\<close>, and a shift that starts at 19:50 of
  period 1 and ends at 00:20 by the clock of the next period.\<close>

definition final_minutes_row :: str_shift where
  "final_minutes_row =
     \<lparr>gameId = 2013020001, playerId = 10, startTime = ''18:30'', period = 3, endTime = '''',
      duration = ''01:00'', teamId = 7, teamName = ''T''\<rparr>"

definition crossing_row :: str_shift where
  "crossing_row =
     \<lparr>gameId = 2013020001, playerId = 10, startTime = ''19:50'', period = 1,
      endTime = ''00:20'', duration = ''00:30'', teamId = 7, teamName = ''T''\<rparr>"

definition final_minutes_shift :: shift where
  "final_minutes_shift =
     \<lparr>gameId = 2013020001, playerId = 10, startTime = 3510, period = 3, endTime = 3600,
      duration = 90, teamId = 7, teamName = ''T''\<rparr>"

definition period_crossing :: "raw_shift list" where
  "period_crossing = [mk_raw ''19:50'' ''00:20'' ''00:30'' 1]"

definition crossing_shift :: shift where
  "crossing_shift =
     \<lparr>gameId = 2013020001, playerId = 10, startTime = 1190, period = 1, endTime = 1220,
      duration = 30, teamId = 7, teamName = ''T''\<rparr>"

subsection \<open>Basic facts\<close>

lemma bind_err_simps [simp]:
  "bind_err (Inl e) f = Inl e"
  "bind_err (Inr x) f = f x"
  by (simp_all add: bind_err_def)

lemma bind_err_eq_Inr:
  "bind_err m f = Inr y \<longleftrightarrow> (\<exists>x. m = Inr x \<and> f x = Inr y)"
  by (cases m) simp_all

lemma overlap_seconds_nonempty:
  assumes "startTime a < endTime a"
  shows "overlap_seconds a b =
           Inr (max 0 (min (endTime a) (endTime b) - max (startTime a) (startTime b)))"
  using assms
  by (auto simp: overlap_seconds_def range_len_def range_first_def range_last_def max_def min_def)

subsection \<open>The order of the players in every record\<close>

lemma set_update_subset: "set (AList.update k v al) \<subseteq> insert (k, v) (set al)"
  by (induction al) auto

lemma overlap_loop_keys:
  "overlap_loop shift cands d = Inr d' \<Longrightarrow>
     fst ` set d' \<subseteq> fst ` set d \<union> (\<lambda>r. playerId (snd r)) ` set cands"
proof (induction cands arbitrary: d)
  case Nil
  then show ?case by simp
next
  case (Cons c cands)
  from Cons.prems obtain secs where
    s: "overlap_seconds shift (snd c) = Inr secs" and
    r: "overlap_loop shift cands (AList.update (playerId (snd c)) secs d) = Inr d'"
    by (auto simp: bind_err_eq_Inr)
  from Cons.IH [OF r] show ?case
    by (auto simp: AList.dom_update)
qed

lemma shift_overlap_set:
  "r \<in> set (shift_overlap all_game_shifts shifts checked team shift) \<longleftrightarrow>
     r \<in> set all_game_shifts \<and> fst r \<notin> fst ` set shifts \<and>
     playerId (snd r) \<notin> set checked \<and> teamId (snd r) = team \<and> correct_time shift (snd r)"
  by (auto simp: shift_overlap_def Let_def)

lemma group_rows_set:
  "r \<in> set (group_rows all_game_shifts k) \<longleftrightarrow>
     r \<in> set all_game_shifts \<and> playerId (snd r) = fst k \<and> teamId (snd r) = snd k"
  by (cases k) (auto simp: group_rows_def)

text \<open>A candidate of a shift of the group of player \<open>p\<close> is a row of another player:
  the rows of \<open>p\<close> on that team are the group, and the group is dropped.\<close>

lemma shift_overlap_other_player:
  assumes "r \<in> set (shift_overlap all_game_shifts (group_rows all_game_shifts (p, t)) checked t shift)"
  shows "playerId (snd r) \<noteq> p"
proof
  assume "playerId (snd r) = p"
  with assms have "r \<in> set (group_rows all_game_shifts (p, t))"
    by (simp add: shift_overlap_set group_rows_set)
  then have "fst r \<in> fst ` set (group_rows all_game_shifts (p, t))" by (rule imageI)
  with assms show False by (simp add: shift_overlap_set)
qed

lemma ordered_table_update:
  assumes "ordered_table all_game_shifts t" "s \<in> snd ` set all_game_shifts"
    "\<forall>kv \<in> set d. playerId s < fst kv"
  shows "ordered_table all_game_shifts (AList.update l (d, s) t)"
  unfolding ordered_table_def
proof
  fix e assume "e \<in> set (AList.update l (d, s) t)"
  then have "e = (l, (d, s)) \<or> e \<in> set t" using set_update_subset by fastforce
  then show "snd (snd e) \<in> snd ` set all_game_shifts \<and>
        (\<forall>kv \<in> set (fst (snd e)). playerId (snd (snd e)) < fst kv)"
  proof
    assume "e = (l, (d, s))"
    with assms(2,3) show ?thesis by simp
  next
    assume "e \<in> set t"
    with assms(1) show ?thesis unfolding ordered_table_def by blast
  qed
qed

lemma shifts_loop_ordered:
  assumes "shifts_loop all_game_shifts shifts checked t rows tab = Inr tab'"
    and "ordered_table all_game_shifts tab"
    and "set rows \<subseteq> set shifts"
    and "shifts = group_rows all_game_shifts (p, t)"
    and "\<forall>r \<in> set all_game_shifts. playerId (snd r) < p \<longrightarrow> playerId (snd r) \<in> set checked"
  shows "ordered_table all_game_shifts tab'"
  using assms(1,2,3)
proof (induction rows arbitrary: tab)
  case Nil
  then show ?case by simp
next
  case (Cons row rows)
  from Cons.prems(1) obtain d where
    d: "overlap_loop (snd row) (shift_overlap all_game_shifts shifts checked t (snd row)) [] = Inr d"
    and r: "shifts_loop all_game_shifts shifts checked t rows
              (AList.update (fst row) (d, snd row) tab) = Inr tab'"
    by (auto simp: bind_err_eq_Inr)
  from Cons.prems(3) have row: "row \<in> set (group_rows all_game_shifts (p, t))"
    using assms(4) by auto
  then have pid: "playerId (snd row) = p" and mem: "snd row \<in> snd ` set all_game_shifts"
    by (auto simp: group_rows_set)
  have "\<forall>k \<in> fst ` set d. p < k"
  proof
    fix k assume "k \<in> fst ` set d"
    with overlap_loop_keys [OF d] obtain c where
      c: "c \<in> set (shift_overlap all_game_shifts shifts checked t (snd row))"
      and k: "k = playerId (snd c)" by auto
    from c have "k \<noteq> p" unfolding k assms(4) by (rule shift_overlap_other_player)
    moreover from c have "\<not> k < p"
      using assms(5) by (auto simp: shift_overlap_set k)
    ultimately show "p < k" by simp
  qed
  with pid have "\<forall>kv \<in> set d. playerId (snd row) < fst kv" by simp
  with Cons.prems(2) mem have "ordered_table all_game_shifts (AList.update (fst row) (d, snd row) tab)"
    by (intro ordered_table_update)
  with Cons.IH [OF r] Cons.prems(3) show ?case by simp
qed

lemma groups_loop_ordered:
  assumes "groups_loop all_game_shifts keys checked tab = Inr tab'"
    and "ordered_table all_game_shifts tab"
    and "sorted keys"
    and "\<forall>r \<in> set all_game_shifts.
           (playerId (snd r), teamId (snd r)) \<in> set keys \<or> playerId (snd r) \<in> set checked"
  shows "ordered_table all_game_shifts tab'"
  using assms
proof (induction keys arbitrary: checked tab)
  case Nil
  then show ?case by simp
next
  case (Cons key keys)
  obtain p t where key: "key = (p, t)" by (cases key)
  from Cons.prems(1) obtain tab1 where
    s: "shifts_loop all_game_shifts (group_rows all_game_shifts (p, t)) checked t
          (group_rows all_game_shifts (p, t)) tab = Inr tab1"
    and g: "groups_loop all_game_shifts keys (checked @ [p]) tab1 = Inr tab'"
    by (auto simp: bind_err_eq_Inr Let_def key)
  have low: "\<forall>r \<in> set all_game_shifts. playerId (snd r) < p \<longrightarrow> playerId (snd r) \<in> set checked"
  proof (intro ballI impI)
    fix r assume r: "r \<in> set all_game_shifts" and lt: "playerId (snd r) < p"
    show "playerId (snd r) \<in> set checked"
    proof (rule ccontr)
      assume "playerId (snd r) \<notin> set checked"
      with Cons.prems(4) r have "(playerId (snd r), teamId (snd r)) \<in> set (key # keys)" by blast
      with Cons.prems(3) have "key \<le> (playerId (snd r), teamId (snd r))" by auto
      with lt show False by (simp add: key)
    qed
  qed
  have 1: "ordered_table all_game_shifts tab1"
    by (rule shifts_loop_ordered [OF s Cons.prems(2) subset_refl refl low])
  have 2: "sorted keys" using Cons.prems(3) by simp
  have 3: "\<forall>r \<in> set all_game_shifts.
           (playerId (snd r), teamId (snd r)) \<in> set keys \<or> playerId (snd r) \<in> set (checked @ [p])"
    using Cons.prems(4) by (auto simp: key)
  show ?case by (rule Cons.IH [OF g 1 2 3])
qed

lemma melt_cell_set:
  "r \<in> set (melt_cell col e) \<longleftrightarrow>
     (\<exists>secs. map_of (fst (snd e)) col = Some secs \<and>
        r = \<lparr>o_gameId = gameId (snd (snd e)), o_playerId = playerId (snd (snd e)),
              playerId2 = col, seconds = secs\<rparr>)"
  by (auto simp: melt_cell_def split: option.splits)

lemma melt_set:
  assumes "r \<in> set (melt tab)"
  shows "\<exists>e \<in> set tab. \<exists>kv \<in> set (fst (snd e)).
        o_gameId r = gameId (snd (snd e)) \<and> o_playerId r = playerId (snd (snd e)) \<and>
        playerId2 r = fst kv \<and> seconds r = snd kv"
proof -
  from assms obtain col e where e: "e \<in> set tab" and "r \<in> set (melt_cell col e)"
    by (auto simp: melt_def)
  then obtain secs where m: "map_of (fst (snd e)) col = Some secs"
    and r: "r = \<lparr>o_gameId = gameId (snd (snd e)), o_playerId = playerId (snd (snd e)),
              playerId2 = col, seconds = secs\<rparr>"
    by (auto simp: melt_cell_set)
  from m have "(col, secs) \<in> set (fst (snd e))" by (rule map_of_SomeD)
  with e r show ?thesis by force
qed

lemma get_overlapping_shifts_ordered:
  assumes "get_overlapping_shifts game_shifts_df game = Inr recs" and "r \<in> set recs"
  shows "o_playerId r < playerId2 r \<and> o_gameId r = game"
proof -
  define all_game_shifts where "all_game_shifts = filter (\<lambda>r. gameId (snd r) = game) game_shifts_df"
  from assms(1) obtain tab where
    g: "groups_loop all_game_shifts (group_keys all_game_shifts) [] [] = Inr tab"
    and recs: "recs = melt tab"
    by (auto simp: get_overlapping_shifts_def Let_def bind_err_eq_Inr all_game_shifts_def
        split: if_splits)
  have "ordered_table all_game_shifts tab"
    by (rule groups_loop_ordered [OF g]) (auto simp: ordered_table_def group_keys_def)
  moreover from assms(2) recs obtain e kv where "e \<in> set tab" "kv \<in> set (fst (snd e))"
    "o_gameId r = gameId (snd (snd e))" "o_playerId r = playerId (snd (snd e))"
    "playerId2 r = fst kv"
    using melt_set by blast
  ultimately show ?thesis
    by (auto simp: ordered_table_def all_game_shifts_def)
qed

text \<open>So a pair of players is reported from one side only: no two records of a result
  name the same two players in opposite roles.\<close>

lemma no_record_in_both_directions:
  assumes "get_overlapping_shifts game_shifts_df game = Inr recs"
    and "r1 \<in> set recs" and "r2 \<in> set recs"
  shows "\<not> (o_playerId r1 = playerId2 r2 \<and> playerId2 r1 = o_playerId r2)"
  using get_overlapping_shifts_ordered [OF assms(1,2)]
    get_overlapping_shifts_ordered [OF assms(1,3)]
  by auto

subsection \<open>The reconciler row by row\<close>

text \<open>The table function succeeds exactly when every row that survives \<^verbatim>\<open>dropna\<close> is
  reconciled, and then returns the reconciled rows under their labels.\<close>

lemma traverse_Inr: "traverse f xs = Inr ys \<longleftrightarrow> list_all2 (\<lambda>x y. f x = Inr y) xs ys"
proof (induction xs arbitrary: ys)
  case Nil
  then show ?case by auto
next
  case (Cons x xs)
  show ?case
    by (cases ys) (auto simp: bind_err_eq_Inr Cons.IH)
qed

lemma on_rows_Inr: "on_rows f df = Inr df' \<longleftrightarrow> list_all2 (row_rel f) df df'"
proof -
  have "(\<lambda>x y. bind_err (f (snd x)) (\<lambda>r. Inr (fst x, r)) = Inr y) = row_rel f"
    by (intro ext) (auto simp: row_rel_def bind_err_eq_Inr)
  then show ?thesis by (simp add: on_rows_def traverse_Inr)
qed

lemma row_rel_bind: "row_rel f OO row_rel g = row_rel (\<lambda>r. bind_err (f r) g)"
  by (intro ext)
    (auto simp: row_rel_def bind_err_eq_Inr relcompp_apply intro: exI [of _ "(a, b)" for a b])

lemma bind_on_rows_Inr:
  "bind_err (on_rows f df) k = Inr y \<longleftrightarrow> (\<exists>df'. list_all2 (row_rel f) df df' \<and> k df' = Inr y)"
  by (simp add: bind_err_eq_Inr on_rows_Inr)

lemma map_rows_eq:
  "map (\<lambda>lr. (fst lr, h (snd lr))) df = out \<longleftrightarrow>
     list_all2 (row_rel (\<lambda>r. Inr (h r))) df out"
  by (auto simp: list_all2_conv_all_nth row_rel_def list_eq_iff_nth_eq prod_eq_iff)

lemma final_rows_Inr:
  "(Inr (shift_columns, map (\<lambda>lr. (fst lr, h (snd lr))) df) = (Inr (cols, out) :: error + _))
     \<longleftrightarrow>
     cols = shift_columns \<and> list_all2 (row_rel (\<lambda>r. Inr (h r))) df out"
  by (auto simp: map_rows_eq [symmetric])

lemma reconcile_rel:
  "row_rel reconcile =
     row_rel final_shift_end OO row_rel backfill_start OO row_rel backfill_end OO
     row_rel convert_times OO
     row_rel (\<lambda>r. Inr (recompute_duration (period_shift (elapsed_time r))))"
  unfolding row_rel_bind reconcile_def backfill_def
  by (rule arg_cong [where f = row_rel]) (auto simp: bind_err_def fun_eq_iff split: sum.splits)

lemma get_game_shifts_Inr:
  assumes "dropna (json_normalize data) \<noteq> []"
  shows "get_game_shifts data = Inr (cols, out) \<longleftrightarrow>
           cols = shift_columns \<and> list_all2 (row_rel reconcile) (dropna (json_normalize data)) out"
proof -
  define df where "df = dropna (json_normalize data)"
  have ne: "json_normalize data \<noteq> []"
    using assms by (auto simp: dropna_def List.map_filter_simps)
  have run: "get_game_shifts data =
     bind_err (on_rows final_shift_end df) (\<lambda>df.
     bind_err (on_rows backfill_start df) (\<lambda>df.
     bind_err (on_rows backfill_end df) (\<lambda>df.
     bind_err (on_rows convert_times df) (\<lambda>df.
       Inr (shift_columns,
            map (\<lambda>lr. (fst lr, recompute_duration (period_shift (elapsed_time (snd lr))))) df)))))"
    using assms ne by (simp add: get_game_shifts_def Let_def df_def)
  have "get_game_shifts data = Inr (cols, out) \<longleftrightarrow>
     (\<exists>d1. list_all2 (row_rel final_shift_end) df d1 \<and>
      (\<exists>d2. list_all2 (row_rel backfill_start) d1 d2 \<and>
      (\<exists>d3. list_all2 (row_rel backfill_end) d2 d3 \<and>
      (\<exists>d4. list_all2 (row_rel convert_times) d3 d4 \<and>
         cols = shift_columns \<and>
         list_all2 (row_rel (\<lambda>r. Inr (recompute_duration (period_shift (elapsed_time r))))) d4 out))))"
    unfolding run
    by (simp only: bind_on_rows_Inr
          final_rows_Inr [of "\<lambda>r. recompute_duration (period_shift (elapsed_time r))"])
  also have "\<dots> \<longleftrightarrow> cols = shift_columns \<and>
     (list_all2 (row_rel final_shift_end) OO list_all2 (row_rel backfill_start) OO
      list_all2 (row_rel backfill_end) OO list_all2 (row_rel convert_times) OO
      list_all2 (row_rel (\<lambda>r. Inr (recompute_duration (period_shift (elapsed_time r)))))) df out"
    unfolding relcompp_apply by blast
  finally show ?thesis by (simp add: reconcile_rel list.rel_compp df_def)
qed

lemma get_game_shifts_row:
  assumes "get_game_shifts game_shifts = Inr (cols, out)"
    and "i < length (dropna (json_normalize game_shifts))"
    and "dropna (json_normalize game_shifts) ! i = (l, r)"
  shows "i < length out \<and> fst (out ! i) = l \<and> reconcile r = Inr (snd (out ! i))"
proof -
  from assms(2) have "dropna (json_normalize game_shifts) \<noteq> []" by auto
  with assms(1) have "list_all2 (row_rel reconcile) (dropna (json_normalize game_shifts)) out"
    by (simp add: get_game_shifts_Inr)
  then have "length out = length (dropna (json_normalize game_shifts))"
    and "row_rel reconcile (dropna (json_normalize game_shifts) ! i) (out ! i)"
    using assms(2) by (auto simp: list_all2_conv_all_nth)
  with assms(2,3) show ?thesis by (simp add: row_rel_def)
qed

lemma get_game_shifts_member:
  assumes "get_game_shifts game_shifts = Inr (cols, out)" and "(l, s) \<in> set out"
  shows "\<exists>r. (l, r) \<in> set (dropna (json_normalize game_shifts)) \<and> reconcile r = Inr s"
proof (cases "dropna (json_normalize game_shifts) = []")
  case True
  then have "get_game_shifts game_shifts = Inr (shift_columns, [])"
    by (simp add: get_game_shifts_def Let_def)
  with assms show ?thesis by simp
next
  case False
  with assms(1) have "list_all2 (row_rel reconcile) (dropna (json_normalize game_shifts)) out"
    by (simp add: get_game_shifts_Inr)
  then have len: "length (dropna (json_normalize game_shifts)) = length out"
    and rel: "\<And>i. i < length out \<Longrightarrow>
                row_rel reconcile (dropna (json_normalize game_shifts) ! i) (out ! i)"
    by (auto simp: list_all2_conv_all_nth)
  from assms(2) obtain i where i: "i < length out" "out ! i = (l, s)"
    by (auto simp: in_set_conv_nth)
  obtain l' r where x: "dropna (json_normalize game_shifts) ! i = (l', r)"
    by (cases "dropna (json_normalize game_shifts) ! i")
  from rel [OF i(1)] have "l' = l" "reconcile r = Inr s"
    by (simp_all add: x i(2) row_rel_def)
  moreover have "(l', r) \<in> set (dropna (json_normalize game_shifts))"
    using i(1) len x by (metis nth_mem)
  ultimately show ?thesis by blast
qed

lemma convert_times_Inr:
  "convert_times r = Inr c \<longleftrightarrow>
     (\<exists>a b d. to_seconds (startTime r) = Inr a \<and> to_seconds (endTime r) = Inr b \<and>
        to_seconds (duration r) = Inr d \<and>
        c = \<lparr>gameId = gameId r, playerId = playerId r, startTime = a, period = period r,
             endTime = b, duration = d, teamId = teamId r, teamName = teamName r\<rparr>)"
  by (auto simp: convert_times_def bind_err_eq_Inr)

lemma reconcile_Inr:
  "reconcile r = Inr s \<longleftrightarrow>
     (\<exists>r' c. backfill r = Inr r' \<and> convert_times r' = Inr c \<and>
        s = recompute_duration (period_shift (elapsed_time c)))"
  by (auto simp: reconcile_def bind_err_eq_Inr)

lemma final_shift_end_fields:
  "final_shift_end r = Inr r' \<Longrightarrow>
     period r' = period r \<and> startTime r' = startTime r \<and> duration r' = duration r"
  by (auto simp: final_shift_end_def bind_err_eq_Inr Let_def split: if_splits)

lemma backfill_start_fields:
  "backfill_start r = Inr r' \<Longrightarrow>
     period r' = period r \<and> endTime r' = endTime r \<and> duration r' = duration r"
  by (auto simp: backfill_start_def bind_err_eq_Inr split: if_splits)

lemma backfill_end_fields:
  "backfill_end r = Inr r' \<Longrightarrow>
     period r' = period r \<and> startTime r' = startTime r \<and> duration r' = duration r"
  by (auto simp: backfill_end_def bind_err_eq_Inr split: if_splits)

lemma backfill_period: "backfill r = Inr r' \<Longrightarrow> period r' = period r"
  by (auto simp: backfill_def bind_err_eq_Inr dest!: final_shift_end_fields
      backfill_start_fields backfill_end_fields)

lemma reconciled_times:
  assumes "reconcile r = Inr s" and "backfill r = Inr r'"
    and "to_seconds (startTime r') = Inr a" and "to_seconds (endTime r') = Inr b"
  shows "startTime s = 1200 * (period r - 1) + a"
    and "endTime s = (if b < a then 1200 * (period r - 1) + b + 1200
                      else 1200 * (period r - 1) + b)"
    and "duration s = endTime s - startTime s"
    and "period s = period r"
  using assms backfill_period [OF assms(2)]
  by (auto simp: reconcile_Inr convert_times_Inr recompute_duration_def period_shift_def
      elapsed_time_def)

lemma reconciled_duration_row: "reconcile r = Inr s \<Longrightarrow> duration s = endTime s - startTime s"
  by (auto simp: reconcile_Inr recompute_duration_def)

lemma py_int_empty: "py_int [] = Inl ValueError"
  by (simp add: py_int_def strip_def)

lemma reconcile_missing_start: "startTime r = [] \<Longrightarrow> reconcile r = Inl ValueError"
  by (simp add: reconcile_def backfill_def final_shift_end_def final_two_minutes_def py_int_empty)

lemma to_seconds_period_end: "to_seconds ''20:00'' = Inr 1200"
  by code_simp

lemma missing_start_never_reconciled:
  assumes "(l, r) \<in> set (dropna (json_normalize game_shifts))" and "startTime r = []"
  shows "\<exists>e. get_game_shifts game_shifts = Inl e"
proof (cases "get_game_shifts game_shifts")
  case (Inl e)
  then show ?thesis by blast
next
  case (Inr res)
  obtain cols out where "res = (cols, out)" by (cases res)
  with Inr have run: "get_game_shifts game_shifts = Inr (cols, out)" by simp
  from assms(1) obtain i where i: "i < length (dropna (json_normalize game_shifts))"
    "dropna (json_normalize game_shifts) ! i = (l, r)"
    by (auto simp: in_set_conv_nth)
  from get_game_shifts_row [OF run i] have "reconcile r = Inr (snd (out ! i))" by simp
  with reconcile_missing_start [OF assms(2)] show ?thesis by simp
qed

lemma backfill_final_minutes:
  assumes "endTime r = []" and "period r = 3"
    and "py_int (take 2 (startTime r)) = Inr m" and "18 \<le> m"
  shows "backfill r = Inr (r\<lparr>endTime := ''20:00''\<rparr>)"
proof -
  from assms(3) have "startTime r \<noteq> []" by (auto simp: py_int_empty)
  then show ?thesis
    using assms
    by (simp add: backfill_def final_shift_end_def final_two_minutes_def Let_def
        backfill_start_def backfill_end_def)
qed

text \<open>A missing end time is filled from the start and the duration, minutes and seconds
  added separately: 19:50 and 00:30 give the text \<^verbatim>\<open>19:80\<close>, which is 1220 seconds.\<close>

lemma missing_end_backfilled:
  "backfill_end crossing_row = Inr crossing_row"
  "backfill_end (crossing_row\<lparr>endTime := []\<rparr>) = Inr (crossing_row\<lparr>endTime := ''19:80''\<rparr>)"
  "to_seconds ''19:80'' = Inr 1220"
  by code_simp+

subsection \<open>The overlap predicate and its symmetry\<close>

text \<open>
  Claim C2. For shifts \<open>a\<close> and \<open>b\<close> with positive duration, the engine's predicate
  is the half-open intersection test \<open>a0 < b1 \<and> b0 < a1\<close>, it has the same truth value
  with the two shifts swapped, and the overlap computed for \<open>b\<close> against \<open>a\<close> is the
  one computed for \<open>a\<close> against \<open>b\<close>.
\<close>

theorem correct_time_symmetric:
  assumes "startTime a < endTime a" and "startTime b < endTime b"
  shows "(correct_time a b \<longleftrightarrow> startTime a < endTime b \<and> startTime b < endTime a)
       \<and> (correct_time a b \<longleftrightarrow> correct_time b a)
       \<and> overlap_seconds b a = overlap_seconds a b"
proof -
  have "overlap_seconds b a = overlap_seconds a b"
    using assms by (simp add: overlap_seconds_nonempty min.commute max.commute)
  moreover have "correct_time a b \<longleftrightarrow> startTime a < endTime b \<and> startTime b < endTime a"
    using assms unfolding correct_time_def by auto
  moreover have "correct_time a b \<longleftrightarrow> correct_time b a"
    using assms unfolding correct_time_def by auto
  ultimately show ?thesis by blast
qed

theorem correct_time_symmetric_witness:
  "correct_time (mk_shift 1 0 100) (mk_shift 2 50 150)
   \<and> correct_time (mk_shift 2 50 150) (mk_shift 1 0 100)
   \<and> overlap_seconds (mk_shift 2 50 150) (mk_shift 1 0 100) = Inr 50
   \<and> overlap_seconds (mk_shift 1 0 100) (mk_shift 2 50 150) = Inr 50"
proof -
  have a: "startTime (mk_shift 1 0 100) < endTime (mk_shift 1 0 100)"
    by (simp add: mk_shift_def)
  have b: "startTime (mk_shift 2 50 150) < endTime (mk_shift 2 50 150)"
    by (simp add: mk_shift_def)
  have "overlap_seconds (mk_shift 1 0 100) (mk_shift 2 50 150) = Inr 50"
    using a by (simp add: overlap_seconds_nonempty) (simp add: mk_shift_def)
  moreover have "startTime (mk_shift 1 0 100) < endTime (mk_shift 2 50 150)"
    "startTime (mk_shift 2 50 150) < endTime (mk_shift 1 0 100)"
    by (simp_all add: mk_shift_def)
  ultimately show ?thesis
    using correct_time_symmetric [OF a b] by auto
qed

subsection \<open>Partners are other players\<close>

text \<open>
  Claim C10. In every record the engine returns, \<open>playerId2\<close> differs from
  \<open>playerId\<close>: the rows of the player of the current shift are dropped from the candidates
  before the comparison.
\<close>

theorem partner_is_other_player:
  assumes "get_overlapping_shifts game_shifts_df game = Inr recs" and "r \<in> set recs"
  shows "playerId2 r \<noteq> o_playerId r"
  using get_overlapping_shifts_ordered [OF assms] by simp

theorem partner_is_other_player_witness:
  "get_overlapping_shifts two_players 2013020001 =
     Inr [\<lparr>o_gameId = 2013020001, o_playerId = 1, playerId2 = 2, seconds = 50\<rparr>]
   \<and> playerId2 \<lparr>o_gameId = 2013020001, o_playerId = 1, playerId2 = 2, seconds = 50\<rparr>
       \<noteq> o_playerId \<lparr>o_gameId = 2013020001, o_playerId = 1, playerId2 = 2, seconds = 50\<rparr>"
proof -
  have run: "get_overlapping_shifts two_players 2013020001 =
     Inr [\<lparr>o_gameId = 2013020001, o_playerId = 1, playerId2 = 2, seconds = 50\<rparr>]"
    by code_simp
  have "\<lparr>o_gameId = 2013020001, o_playerId = 1, playerId2 = 2, seconds = 50\<rparr>
          \<in> set [\<lparr>o_gameId = 2013020001, o_playerId = 1, playerId2 = 2, seconds = 50\<rparr>]"
    by simp
  from partner_is_other_player [OF run this] run show ?thesis by blast
qed

subsection \<open>Shifts of other games\<close>

text \<open>
  Claim C9, as stated: a table with shifts of more than one game is rejected. It is not:
  the table \<open>two_games\<close> holds shifts of two games and the engine returns the overlap of
  the requested game.
\<close>

theorem two_games_not_rejected:
  "get_overlapping_shifts two_games 2013020001 =
     Inr [\<lparr>o_gameId = 2013020001, o_playerId = 1, playerId2 = 2, seconds = 50\<rparr>]"
  by code_simp

text \<open>
  Claim C9, amended. The engine selects the rows of the requested game (line 166): its
  result on any table is its result on the rows of that game alone, and every record it
  returns carries the requested \<open>gameId\<close>.
\<close>

theorem other_games_ignored:
  "get_overlapping_shifts game_shifts_df game =
     get_overlapping_shifts (filter (\<lambda>r. gameId (snd r) = game) game_shifts_df) game
   \<and> (\<forall>recs. get_overlapping_shifts game_shifts_df game = Inr recs \<longrightarrow>
         (\<forall>r \<in> set recs. o_gameId r = game))"
proof -
  have "get_overlapping_shifts game_shifts_df game =
     get_overlapping_shifts (filter (\<lambda>r. gameId (snd r) = game) game_shifts_df) game"
    by (simp add: get_overlapping_shifts_def)
  moreover have "\<forall>recs. get_overlapping_shifts game_shifts_df game = Inr recs \<longrightarrow>
         (\<forall>r \<in> set recs. o_gameId r = game)"
    using get_overlapping_shifts_ordered by blast
  ultimately show ?thesis by blast
qed

theorem other_games_ignored_witness:
  "get_overlapping_shifts two_games 2013020001 = get_overlapping_shifts two_players 2013020001
   \<and> get_overlapping_shifts two_games 2013020001 =
       Inr [\<lparr>o_gameId = 2013020001, o_playerId = 1, playerId2 = 2, seconds = 50\<rparr>]
   \<and> o_gameId \<lparr>o_gameId = 2013020001, o_playerId = 1, playerId2 = 2, seconds = 50\<rparr>
       = 2013020001"
proof -
  have sel: "filter (\<lambda>r. gameId (snd r) = 2013020001) two_games = two_players"
    by (simp add: two_games_def two_players_def mk_shift_def)
  have run: "get_overlapping_shifts two_games 2013020001 =
       Inr [\<lparr>o_gameId = 2013020001, o_playerId = 1, playerId2 = 2, seconds = 50\<rparr>]"
    by code_simp
  from other_games_ignored [of two_games 2013020001] sel run show ?thesis by simp
qed

subsection \<open>A shift of no duration as the current shift\<close>

text \<open>
  Claim C1 at the table \<open>zero_duration_first\<close>: the shift \<open>[50,50)\<close> of player 1 is the
  current shift, the shift \<open>[0,100)\<close> of player 2 passes the time test, and
  \<^verbatim>\<open>shift_range[0]\<close> raises \<^verbatim>\<open>IndexError\<close>: no overlap of 0 is recorded, the call fails.
\<close>

theorem zero_duration_shift_raises:
  "get_overlapping_shifts zero_duration_first 2013020001 = Inl IndexError"
  by code_simp

subsection \<open>Two shifts of one partner inside one shift\<close>

text \<open>
  Claim C3 at the table \<open>one_against_two\<close>: the shift of player 1 overlaps both shifts
  of player 2, by 10 and by 30 seconds. \<^verbatim>\<open>overlap_dict\<close> is keyed by the partner, so the
  second value replaces the first and the pair with the shift \<open>[0,10)\<close> is recorded zero
  times.
\<close>

theorem one_against_two_records_once:
  "get_overlapping_shifts one_against_two 2013020001 =
     Inr [\<lparr>o_gameId = 2013020001, o_playerId = 1, playerId2 = 2, seconds = 30\<rparr>]"
  by code_simp

text \<open>When every shift of a player overlaps one shift of the partner, there is one record
  for each pair of shifts.\<close>

lemma three_pairs_three_records:
  "get_overlapping_shifts three_pairs 2013020001 =
     Inr [\<lparr>o_gameId = 2013020001, o_playerId = 1, playerId2 = 2, seconds = 30\<rparr>,
          \<lparr>o_gameId = 2013020001, o_playerId = 1, playerId2 = 2, seconds = 30\<rparr>,
          \<lparr>o_gameId = 2013020001, o_playerId = 1, playerId2 = 2, seconds = 30\<rparr>]"
  by code_simp

text \<open>
  Claim C6 at the table \<open>goalie_and_skater\<close>: the shift of player 1 overlaps three
  shifts of player 2 (40, 60 and 30 seconds) and the engine returns one record, with the
  value of the last.
\<close>

theorem goalie_and_skater_one_record:
  "get_overlapping_shifts goalie_and_skater 2013020001 =
     Inr [\<lparr>o_gameId = 2013020001, o_playerId = 1, playerId2 = 2, seconds = 30\<rparr>]"
  by code_simp

subsection \<open>Reconciled intervals\<close>

text \<open>
  Claim C4. A row whose times after the backfill are \<^verbatim>\<open>mm:ss\<close> texts of \<open>a\<close> and
  \<open>b\<close> seconds, both in \<open>[0,1200)\<close>, is reconciled to the start
  \<open>1200 * (period - 1) + a\<close> and the end \<open>1200 * (period - 1) + b\<close>, with 1200 added to
  the end when it is before the start; then the end is not before the start, and the
  duration is the end minus the start.
\<close>

theorem reconciled_interval:
  assumes "get_game_shifts game_shifts = Inr (cols, out)"
    and "i < length (dropna (json_normalize game_shifts))"
    and "dropna (json_normalize game_shifts) ! i = (l, r)"
    and "backfill r = Inr r'"
    and "to_seconds (startTime r') = Inr a" and "0 \<le> a" and "a < 1200"
    and "to_seconds (endTime r') = Inr b" and "0 \<le> b" and "b < 1200"
  shows "fst (out ! i) = l
       \<and> startTime (snd (out ! i)) = 1200 * (period r - 1) + a
       \<and> endTime (snd (out ! i)) =
           (if b < a then 1200 * (period r - 1) + b + 1200 else 1200 * (period r - 1) + b)
       \<and> startTime (snd (out ! i)) \<le> endTime (snd (out ! i))
       \<and> duration (snd (out ! i)) = endTime (snd (out ! i)) - startTime (snd (out ! i))"
proof -
  from get_game_shifts_row [OF assms(1-3)]
  have l: "fst (out ! i) = l" and rec: "reconcile r = Inr (snd (out ! i))" by simp_all
  note t = reconciled_times [OF rec assms(4,5,8)]
  from t(1,2) assms(6,7,9,10) have "startTime (snd (out ! i)) \<le> endTime (snd (out ! i))"
    by (simp split: if_splits)
  with l t show ?thesis by simp
qed

theorem reconciled_interval_witness:
  "get_game_shifts period_crossing = Inr (shift_columns, [(0, crossing_shift)])
   \<and> startTime crossing_shift = 1200 * (1 - 1) + 1190
   \<and> endTime crossing_shift = 1200 * (1 - 1) + 20 + 1200
   \<and> startTime crossing_shift \<le> endTime crossing_shift
   \<and> duration crossing_shift = endTime crossing_shift - startTime crossing_shift"
proof -
  have run: "get_game_shifts period_crossing = Inr (shift_columns, [(0, crossing_shift)])"
    by code_simp
  have len: "0 < length (dropna (json_normalize period_crossing))" by code_simp
  have row: "dropna (json_normalize period_crossing) ! 0 = (0, crossing_row)" by code_simp
  have bf: "backfill crossing_row = Inr crossing_row" by code_simp
  have a: "to_seconds (startTime crossing_row) = Inr 1190" by code_simp
  have b: "to_seconds (endTime crossing_row) = Inr 20" by code_simp
  have p: "period crossing_row = 1" by (simp add: crossing_row_def)
  from reconciled_interval [OF run len row bf a _ _ b] p run show ?thesis by simp
qed

subsection \<open>The final two minutes of regulation\<close>

text \<open>
  Claim C5, as stated: the record of period 3 with start \<^verbatim>\<open>18:30\<close>, no end and duration
  \<^verbatim>\<open>01:00\<close> is reconciled to the end 2400 and the start 2310. The reconciler returns the
  start 3510 and the end 3600: two periods, \<open>1200 * (3 - 1)\<close> seconds, lie before
  period 3.
\<close>

theorem final_minutes_reconciled:
  "get_game_shifts final_minutes =
     Inr (shift_columns,
          [(0, \<lparr>gameId = 2013020001, playerId = 10, startTime = 3510, period = 3,
                endTime = 3600, duration = 90, teamId = 7, teamName = ''T''\<rparr>)])
   \<and> get_game_shifts final_minutes \<noteq>
     Inr (shift_columns,
          [(0, \<lparr>gameId = 2013020001, playerId = 10, startTime = 2310, period = 3,
                endTime = 2400, duration = 90, teamId = 7, teamName = ''T''\<rparr>)])"
proof -
  have "get_game_shifts final_minutes =
     Inr (shift_columns,
          [(0, \<lparr>gameId = 2013020001, playerId = 10, startTime = 3510, period = 3,
                endTime = 3600, duration = 90, teamId = 7, teamName = ''T''\<rparr>)])"
    by code_simp
  then show ?thesis by simp
qed

text \<open>
  Claim C5, amended. A record of period 3 with no end time and a start minute of 18 or
  more gets the end \<^verbatim>\<open>20:00\<close> of the period: with \<open>a\<close> the seconds of its start text,
  the reconciled start is \<open>2400 + a\<close>, the reconciled end is 3600 (4800 when the start
  text is after \<^verbatim>\<open>20:00\<close>), and the duration is the end minus the start. For the start
  \<^verbatim>\<open>18:30\<close> this is the start 3510, the end 3600 and the duration 90.
\<close>

theorem final_two_minutes_end:
  assumes "get_game_shifts game_shifts = Inr (cols, out)"
    and "i < length (dropna (json_normalize game_shifts))"
    and "dropna (json_normalize game_shifts) ! i = (l, r)"
    and "endTime r = []" and "period r = 3"
    and "py_int (take 2 (startTime r)) = Inr m" and "18 \<le> m"
  shows "\<exists>a. to_seconds (startTime r) = Inr a
           \<and> fst (out ! i) = l
           \<and> startTime (snd (out ! i)) = 2400 + a
           \<and> endTime (snd (out ! i)) = (if 1200 < a then 4800 else 3600)
           \<and> duration (snd (out ! i)) = endTime (snd (out ! i)) - startTime (snd (out ! i))"
proof -
  from get_game_shifts_row [OF assms(1-3)]
  have l: "fst (out ! i) = l" and rec: "reconcile r = Inr (snd (out ! i))" by simp_all
  have bf: "backfill r = Inr (r\<lparr>endTime := ''20:00''\<rparr>)"
    by (rule backfill_final_minutes [OF assms(4-7)])
  from rec bf obtain a where a: "to_seconds (startTime r) = Inr a"
    by (auto simp: reconcile_Inr convert_times_Inr)
  have "startTime (snd (out ! i)) = 2400 + a"
    "endTime (snd (out ! i)) = (if 1200 < a then 4800 else 3600)"
    "duration (snd (out ! i)) = endTime (snd (out ! i)) - startTime (snd (out ! i))"
    using reconciled_times [OF rec bf, of a 1200] a assms(5)
    by (auto simp: to_seconds_period_end)
  with a l show ?thesis by blast
qed

theorem final_two_minutes_end_witness:
  "get_game_shifts final_minutes = Inr (shift_columns, [(0, final_minutes_shift)])
   \<and> to_seconds (startTime final_minutes_row) = Inr 1110
   \<and> startTime final_minutes_shift = 2400 + 1110
   \<and> endTime final_minutes_shift = 3600
   \<and> duration final_minutes_shift = 90"
proof -
  have run: "get_game_shifts final_minutes = Inr (shift_columns, [(0, final_minutes_shift)])"
    by code_simp
  have len: "0 < length (dropna (json_normalize final_minutes))" by code_simp
  have row: "dropna (json_normalize final_minutes) ! 0 = (0, final_minutes_row)" by code_simp
  have e: "endTime final_minutes_row = []" and p: "period final_minutes_row = 3"
    by (simp_all add: final_minutes_row_def)
  have m: "py_int (take 2 (startTime final_minutes_row)) = Inr 18" by code_simp
  have a: "to_seconds (startTime final_minutes_row) = Inr 1110" by code_simp
  from final_two_minutes_end [OF run len row e p m] a run show ?thesis by simp
qed

subsection \<open>A missing start time\<close>

text \<open>
  Claim C7 at the table \<open>missing_start\<close>, one row with an empty start time, the end
  \<^verbatim>\<open>01:00\<close> and the duration \<^verbatim>\<open>00:30\<close>: line 59 reads the minutes of the start time
  of every row, \<^verbatim>\<open>int('')\<close> raises \<^verbatim>\<open>ValueError\<close>, and the backfill of lines 69-71
  is never reached.
\<close>

theorem missing_start_raises: "get_game_shifts missing_start = Inl ValueError"
  by code_simp

subsection \<open>A game with no usable rows\<close>

text \<open>
  Claim C8. When no row is left after \<^verbatim>\<open>dropna\<close> (no rows at all, or goal events only)
  the reconciler returns the empty table with the eight declared columns, and no error.
\<close>

theorem no_usable_rows_empty_result:
  assumes "dropna (json_normalize game_shifts) = []"
  shows "get_game_shifts game_shifts =
           Inr ([''gameId'', ''playerId'', ''startTime'', ''period'', ''endTime'', ''duration'',
                 ''teamId'', ''teamName''], [])"
  using assms by (simp add: get_game_shifts_def Let_def shift_columns_def)

theorem no_usable_rows_empty_result_witness:
  "dropna (json_normalize goal_event) = []
   \<and> get_game_shifts goal_event =
       Inr ([''gameId'', ''playerId'', ''startTime'', ''period'', ''endTime'', ''duration'',
             ''teamId'', ''teamName''], [])
   \<and> get_game_shifts [] =
       Inr ([''gameId'', ''playerId'', ''startTime'', ''period'', ''endTime'', ''duration'',
             ''teamId'', ''teamName''], [])"
proof -
  have a: "dropna (json_normalize goal_event) = []" by code_simp
  have b: "dropna (json_normalize ([] :: raw_shift list)) = []" by code_simp
  from no_usable_rows_empty_result [OF a] no_usable_rows_empty_result [OF b] a
  show ?thesis by blast
qed

end
